theory Spec2Isabelle
  imports Complex_Main "HOL-Library.Word" "HOL-Library.Signed_Division"
begin

unbundle bit_operations_syntax

section \<open>Data model\<close>

text \<open>
  The graphics functions of \<^verbatim>\<open>GFX_FUNCTIONS.c\<close> work on \<^verbatim>\<open>int16_t\<close> coordinates and
  \<^verbatim>\<open>uint16_t\<close> colours. Both are 16-bit words here; a coordinate is read as a signed
  number with \<open>sint\<close>. The target is a 32-bit ARM core, so \<^verbatim>\<open>int\<close> has 32 bits: an
  expression over \<^verbatim>\<open>int16_t\<close> operands is computed in \<^verbatim>\<open>int\<close> without overflow and
  is cut to 16 bits only when it is stored in an \<^verbatim>\<open>int16_t\<close> variable or passed as an
  \<^verbatim>\<open>int16_t\<close> argument. Cutting the exact sum, difference or product to 16 bits
  is the word operation \<open>+\<close>, \<open>-\<close> or \<open>*\<close>, which is how stored values are written
  below; comparisons, \<^verbatim>\<open>abs\<close> and \<^verbatim>\<open>/\<close> are evaluated on the signed values, as the
  code evaluates them in \<^verbatim>\<open>int\<close>.
\<close>

type_synonym int16 = "16 word"
type_synonym int32 = "32 word"
type_synonym color = "16 word"

text \<open>
  The display back end is not part of the graphics file. What a primitive does is the
  sequence of calls it makes to the two functions of the back end:
  \<^verbatim>\<open>ST7735_DrawPixel(x, y, color)\<close> and \<^verbatim>\<open>ST7735_FillRectangle(x, y, w, h, color)\<close>.
\<close>

datatype event =
    DrawPixel int16 int16 color
  | FillRectangle int16 int16 int16 int16 color

text \<open>
  Storing an \<^verbatim>\<open>int\<close> in an \<^verbatim>\<open>int16_t\<close> keeps the low 16 bits (the conversion of a
  value out of range is implementation-defined in C; the compilers for this target
  wrap around).
\<close>

definition i16 :: "int \<Rightarrow> int16" where
  "i16 k = word_of_int k"

text \<open>
  A primitive that may not return has the result type \<open>event list option\<close>: \<open>None\<close> says
  that the call does not return (a loop that never ends, or a division by zero).
  \<open>draw_seq\<close> runs drawing calls one after the other.
\<close>

fun draw_seq :: "event list option list \<Rightarrow> event list option" where
  "draw_seq [] = Some []"
| "draw_seq (d # ds) =
     (case d of
        None \<Rightarrow> None
      | Some es \<Rightarrow> (case draw_seq ds of None \<Rightarrow> None | Some fs \<Rightarrow> Some (es @ fs)))"

subsection \<open>Signed 16-bit values\<close>

lemma sint16_lower: "- 32768 \<le> sint (x :: int16)"
  using sint_ge [of x] by simp

lemma sint16_upper: "sint (x :: int16) \<le> 32767"
  using sint_lt [of x] by simp

lemma sint_i16: "- 32768 \<le> k \<Longrightarrow> k \<le> 32767 \<Longrightarrow> sint (i16 k) = k"
  by (simp add: i16_def sint_sbintrunc' signed_take_bit_int_eq_self)

lemma sint16_succ: "sint (x :: int16) < 32767 \<Longrightarrow> sint (x + 1) = sint x + 1"
proof -
  assume a: "sint x < 32767"
  have "x + 1 = i16 (sint x + 1)" by (simp add: i16_def)
  then show ?thesis using a sint16_lower [of x] by (simp add: sint_i16)
qed

lemma sint16_pred: "- 32768 < sint (x :: int16) \<Longrightarrow> sint (x - 1) = sint x - 1"
proof -
  assume a: "- 32768 < sint x"
  have "x - 1 = i16 (sint x - 1)" by (simp add: i16_def)
  then show ?thesis using a sint16_upper [of x] by (simp add: sint_i16)
qed

section \<open>Line primitives\<close>

definition writePixel :: "int16 \<Rightarrow> int16 \<Rightarrow> color \<Rightarrow> event" where
  "writePixel x y c = DrawPixel x y c"

text \<open>
  The \<^verbatim>\<open>for (; x0<=x1; x0++)\<close> loop of \<^verbatim>\<open>writeLine\<close>. The counter \<^verbatim>\<open>x0\<close> is an
  \<^verbatim>\<open>int16_t\<close>: \<^verbatim>\<open>x0++\<close> at 32767 gives -32768, so the loop is a partial function.
\<close>

partial_function (option) writeLine_loop ::
  "bool \<Rightarrow> int16 \<Rightarrow> int16 \<Rightarrow> int16 \<Rightarrow> int16 \<Rightarrow> color \<Rightarrow>
   int16 \<Rightarrow> int16 \<Rightarrow> int16 \<Rightarrow> event list option" where
  "writeLine_loop steep x1 dx dy ystep c x0 y0 err =
     (if sint x0 \<le> sint x1 then
        (let p = (if steep then writePixel y0 x0 c else writePixel x0 y0 c);
             err1 = err - dy;
             y0' = (if sint err1 < 0 then y0 + ystep else y0);
             err2 = (if sint err1 < 0 then err1 + dx else err1)
         in Option.bind (writeLine_loop steep x1 dx dy ystep c (x0 + 1) y0' err2)
              (\<lambda>r. Some (p # r)))
      else Some [])"

declare writeLine_loop.simps [code]

definition writeLine :: "int16 \<Rightarrow> int16 \<Rightarrow> int16 \<Rightarrow> int16 \<Rightarrow> color \<Rightarrow> event list option" where
  "writeLine x0 y0 x1 y1 c =
    (let steep = (\<bar>sint y1 - sint y0\<bar> > \<bar>sint x1 - sint x0\<bar>);
         (x0, y0) = (if steep then (y0, x0) else (x0, y0));
         (x1, y1) = (if steep then (y1, x1) else (x1, y1));
         swp = (sint x0 > sint x1);
         (x0, x1) = (if swp then (x1, x0) else (x0, x1));
         (y0, y1) = (if swp then (y1, y0) else (y0, y1));
         dx = x1 - x0;
         dy = i16 \<bar>sint y1 - sint y0\<bar>;
         err = i16 (sint dx sdiv 2);
         ystep = (if sint y0 < sint y1 then 1 else - 1)
     in writeLine_loop steep x1 dx dy ystep c x0 y0 err)"

definition drawFastVLine :: "int16 \<Rightarrow> int16 \<Rightarrow> int16 \<Rightarrow> color \<Rightarrow> event list option" where
  "drawFastVLine x y h c = writeLine x y x (y + h - 1) c"

definition drawFastHLine :: "int16 \<Rightarrow> int16 \<Rightarrow> int16 \<Rightarrow> color \<Rightarrow> event list option" where
  "drawFastHLine x y w c = writeLine x y (x + w - 1) y c"

definition drawLine :: "int16 \<Rightarrow> int16 \<Rightarrow> int16 \<Rightarrow> int16 \<Rightarrow> color \<Rightarrow> event list option" where
  "drawLine x0 y0 x1 y1 c =
    (if x0 = x1 then
       (let (y0, y1) = (if sint y0 > sint y1 then (y1, y0) else (y0, y1))
        in drawFastVLine x0 y0 (y1 - y0 + 1) c)
     else if y0 = y1 then
       (let (x0, x1) = (if sint x0 > sint x1 then (x1, x0) else (x0, x1))
        in drawFastHLine x0 y0 (x1 - x0 + 1) c)
     else writeLine x0 y0 x1 y1 c)"

section \<open>Circle primitives\<close>

text \<open>
  The midpoint recurrence of \<^verbatim>\<open>drawCircle\<close>. The loop \<^verbatim>\<open>while (x<y)\<close> always ends:
  \<^verbatim>\<open>x\<close> grows and \<^verbatim>\<open>y\<close> never grows, and neither leaves the 16-bit range while
  \<^verbatim>\<open>x < y\<close> holds. The variables \<^verbatim>\<open>f\<close>, \<^verbatim>\<open>ddF_x\<close> and \<^verbatim>\<open>ddF_y\<close> wrap around.
\<close>

function drawCircle_loop ::
  "int16 \<Rightarrow> int16 \<Rightarrow> color \<Rightarrow> int16 \<Rightarrow> int16 \<Rightarrow> int16 \<Rightarrow> int16 \<Rightarrow> int16 \<Rightarrow> event list" where
  "drawCircle_loop x0 y0 c f ddF_x ddF_y x y =
     (if sint x < sint y then
        (let ge = (0 \<le> sint f);
             y = (if ge then y - 1 else y);
             ddF_y = (if ge then ddF_y + 2 else ddF_y);
             f = (if ge then f + ddF_y else f);
             x = x + 1;
             ddF_x = ddF_x + 2;
             f = f + ddF_x
         in [writePixel (x0 + x) (y0 + y) c,
             writePixel (x0 - x) (y0 + y) c,
             writePixel (x0 + x) (y0 - y) c,
             writePixel (x0 - x) (y0 - y) c,
             writePixel (x0 + y) (y0 + x) c,
             writePixel (x0 - y) (y0 + x) c,
             writePixel (x0 + y) (y0 - x) c,
             writePixel (x0 - y) (y0 - x) c]
            @ drawCircle_loop x0 y0 c f ddF_x ddF_y x y)
      else [])"
  by pat_completeness auto

lemma midpoint_step_no_wrap:
  assumes "sint (x :: int16) < sint (y :: int16)"
  shows "sint (x + 1) = sint x + 1 \<and> sint (y - 1) = sint y - 1"
proof -
  from assms sint16_upper [of y] have "sint (x + 1) = sint x + 1"
    by (simp add: sint16_succ)
  moreover from assms sint16_lower [of x] have "sint (y - 1) = sint y - 1"
    by (simp add: sint16_pred)
  ultimately show ?thesis by simp
qed

termination drawCircle_loop
  by (relation "measure (\<lambda>(x0, y0, c, f, ddF_x, ddF_y, x, y). nat (sint y - sint x))")
     (auto dest: midpoint_step_no_wrap)

definition drawCircle :: "int16 \<Rightarrow> int16 \<Rightarrow> int16 \<Rightarrow> color \<Rightarrow> event list" where
  "drawCircle x0 y0 r c =
     [writePixel x0 (y0 + r) c,
      writePixel x0 (y0 - r) c,
      writePixel (x0 + r) y0 c,
      writePixel (x0 - r) y0 c]
     @ drawCircle_loop x0 y0 c (1 - r) 1 (- 2 * r) 0 r"

text \<open>The same recurrence, plotting only the corners chosen by the bits of \<^verbatim>\<open>cornername\<close>.\<close>

function drawCircleHelper_loop ::
  "int16 \<Rightarrow> int16 \<Rightarrow> 8 word \<Rightarrow> color \<Rightarrow> int16 \<Rightarrow> int16 \<Rightarrow> int16 \<Rightarrow> int16 \<Rightarrow> int16 \<Rightarrow> event list" where
  "drawCircleHelper_loop x0 y0 cornername c f ddF_x ddF_y x y =
     (if sint x < sint y then
        (let ge = (0 \<le> sint f);
             y = (if ge then y - 1 else y);
             ddF_y = (if ge then ddF_y + 2 else ddF_y);
             f = (if ge then f + ddF_y else f);
             x = x + 1;
             ddF_x = ddF_x + 2;
             f = f + ddF_x
         in (if cornername AND 4 \<noteq> 0
             then [writePixel (x0 + x) (y0 + y) c, writePixel (x0 + y) (y0 + x) c] else [])
            @ (if cornername AND 2 \<noteq> 0
             then [writePixel (x0 + x) (y0 - y) c, writePixel (x0 + y) (y0 - x) c] else [])
            @ (if cornername AND 8 \<noteq> 0
             then [writePixel (x0 - y) (y0 + x) c, writePixel (x0 - x) (y0 + y) c] else [])
            @ (if cornername AND 1 \<noteq> 0
             then [writePixel (x0 - y) (y0 - x) c, writePixel (x0 - x) (y0 - y) c] else [])
            @ drawCircleHelper_loop x0 y0 cornername c f ddF_x ddF_y x y)
      else [])"
  by pat_completeness auto

termination drawCircleHelper_loop
  by (relation "measure (\<lambda>(x0, y0, cornername, c, f, ddF_x, ddF_y, x, y). nat (sint y - sint x))")
     (auto dest: midpoint_step_no_wrap)

definition drawCircleHelper :: "int16 \<Rightarrow> int16 \<Rightarrow> int16 \<Rightarrow> 8 word \<Rightarrow> color \<Rightarrow> event list" where
  "drawCircleHelper x0 y0 r cornername c =
     drawCircleHelper_loop x0 y0 cornername c (1 - r) 1 (- 2 * r) 0 r"

text \<open>
  \<^verbatim>\<open>fillCircleHelper\<close>, \<^verbatim>\<open>fillTriangle\<close> and the rectangles draw through
  \<^verbatim>\<open>drawFastVLine\<close> and \<^verbatim>\<open>drawFastHLine\<close>, which return nothing to their caller. Such
  a function is modelled in two layers: the sequence of fast-line calls it makes, and
  the pixel writes of these calls in their order.
\<close>

datatype fast_line =
    FastVLine int16 int16 int16
  | FastHLine int16 int16 int16

fun draw_fast :: "color \<Rightarrow> fast_line \<Rightarrow> event list option" where
  "draw_fast c (FastVLine x y h) = drawFastVLine x y h c"
| "draw_fast c (FastHLine x y w) = drawFastHLine x y w c"

definition draw_all :: "color \<Rightarrow> fast_line list \<Rightarrow> event list option" where
  "draw_all c ls = draw_seq (map (draw_fast c) ls)"

text \<open>
  One pass of the loop of \<^verbatim>\<open>fillCircleHelper\<close>, as it is observed: the values of
  \<^verbatim>\<open>x\<close> and \<^verbatim>\<open>y\<close> when the pass starts (\<open>x_old\<close>, \<open>y_old\<close>), their values after the
  midpoint update (\<open>x_new\<close>, \<open>y_new\<close>), which are the current values when the pass
  draws, and the calls of \<^verbatim>\<open>drawFastVLine\<close> the pass makes, in their order.
\<close>

record pass =
  x_old :: int16
  y_old :: int16
  x_new :: int16
  y_new :: int16
  lines :: "fast_line list"

text \<open>
  The argument \<open>delta\<close> of the loop is the variable \<^verbatim>\<open>delta\<close> after \<^verbatim>\<open>delta++\<close>.
\<close>

function fillCircleHelper_loop ::
  "int16 \<Rightarrow> int16 \<Rightarrow> 8 word \<Rightarrow> int16 \<Rightarrow> int16 \<Rightarrow> int16 \<Rightarrow> int16 \<Rightarrow> int16 \<Rightarrow> int16 \<Rightarrow>
   int16 \<Rightarrow> int16 \<Rightarrow> pass list" where
  "fillCircleHelper_loop x0 y0 corners delta f ddF_x ddF_y x y px py =
     (if sint x < sint y then
        (let x_in = x; y_in = y;
             ge = (0 \<le> sint f);
             y = (if ge then y - 1 else y);
             ddF_y = (if ge then ddF_y + 2 else ddF_y);
             f = (if ge then f + ddF_y else f);
             x = x + 1;
             ddF_x = ddF_x + 2;
             f = f + ddF_x;
             ls1 = (if sint x < sint y + 1 then
                      (if corners AND 1 \<noteq> 0
                       then [FastVLine (x0 + x) (y0 - y) (2 * y + delta)] else [])
                      @ (if corners AND 2 \<noteq> 0
                       then [FastVLine (x0 - x) (y0 - y) (2 * y + delta)] else [])
                    else []);
             ls2 = (if y \<noteq> py then
                      (if corners AND 1 \<noteq> 0
                       then [FastVLine (x0 + py) (y0 - px) (2 * px + delta)] else [])
                      @ (if corners AND 2 \<noteq> 0
                       then [FastVLine (x0 - py) (y0 - px) (2 * px + delta)] else [])
                    else []);
             py = (if y \<noteq> py then y else py);
             px = x
         in \<lparr>x_old = x_in, y_old = y_in, x_new = x, y_new = y, lines = ls1 @ ls2\<rparr>
            # fillCircleHelper_loop x0 y0 corners delta f ddF_x ddF_y x y px py)
      else [])"
  by pat_completeness auto

termination fillCircleHelper_loop
  by (relation "measure (\<lambda>(x0, y0, corners, delta, f, ddF_x, ddF_y, x, y, px, py).
                  nat (sint y - sint x))")
     (auto dest: midpoint_step_no_wrap)

definition fillCircleHelper_passes ::
  "int16 \<Rightarrow> int16 \<Rightarrow> int16 \<Rightarrow> 8 word \<Rightarrow> int16 \<Rightarrow> pass list" where
  "fillCircleHelper_passes x0 y0 r corners delta =
     fillCircleHelper_loop x0 y0 corners (delta + 1) (1 - r) 1 (- 2 * r) 0 r 0 r"

definition fillCircleHelper_calls ::
  "int16 \<Rightarrow> int16 \<Rightarrow> int16 \<Rightarrow> 8 word \<Rightarrow> int16 \<Rightarrow> fast_line list" where
  "fillCircleHelper_calls x0 y0 r corners delta =
     concat (map lines (fillCircleHelper_passes x0 y0 r corners delta))"

definition fillCircleHelper ::
  "int16 \<Rightarrow> int16 \<Rightarrow> int16 \<Rightarrow> 8 word \<Rightarrow> int16 \<Rightarrow> color \<Rightarrow> event list option" where
  "fillCircleHelper x0 y0 r corners delta c =
     draw_all c (fillCircleHelper_calls x0 y0 r corners delta)"

section \<open>Rectangles and rounded rectangles\<close>

definition fillRect :: "int16 \<Rightarrow> int16 \<Rightarrow> int16 \<Rightarrow> int16 \<Rightarrow> color \<Rightarrow> event list" where
  "fillRect x y w h c = [FillRectangle x y w h c]"

definition drawRect :: "int16 \<Rightarrow> int16 \<Rightarrow> int16 \<Rightarrow> int16 \<Rightarrow> color \<Rightarrow> event list option" where
  "drawRect x y w h c =
     draw_seq
      [drawFastHLine x y w c,
       drawFastHLine x (y + h - 1) w c,
       drawFastVLine x y h c,
       drawFastVLine (x + w - 1) y h c]"

text \<open>\<^verbatim>\<open>((w < h) ? w : h) / 2\<close>: the division of C rounds towards zero.\<close>

definition max_radius :: "int16 \<Rightarrow> int16 \<Rightarrow> int16" where
  "max_radius w h = i16 ((if sint w < sint h then sint w else sint h) sdiv 2)"

definition drawRoundRect ::
  "int16 \<Rightarrow> int16 \<Rightarrow> int16 \<Rightarrow> int16 \<Rightarrow> int16 \<Rightarrow> color \<Rightarrow> event list option" where
  "drawRoundRect x y w h r c =
     (let r = (if sint r > sint (max_radius w h) then max_radius w h else r)
      in draw_seq
          [drawFastHLine (x + r) y (w - 2 * r) c,
           drawFastHLine (x + r) (y + h - 1) (w - 2 * r) c,
           drawFastVLine x (y + r) (h - 2 * r) c,
           drawFastVLine (x + w - 1) (y + r) (h - 2 * r) c,
           Some (drawCircleHelper (x + r) (y + r) r 1 c),
           Some (drawCircleHelper (x + w - r - 1) (y + r) r 2 c),
           Some (drawCircleHelper (x + w - r - 1) (y + h - r - 1) r 4 c),
           Some (drawCircleHelper (x + r) (y + h - r - 1) r 8 c)])"

definition fillRoundRect ::
  "int16 \<Rightarrow> int16 \<Rightarrow> int16 \<Rightarrow> int16 \<Rightarrow> int16 \<Rightarrow> color \<Rightarrow> event list option" where
  "fillRoundRect x y w h r c =
     (let r = (if sint r > sint (max_radius w h) then max_radius w h else r)
      in draw_seq
          [Some (fillRect (x + r) y (w - 2 * r) h c),
           fillCircleHelper (x + w - r - 1) (y + r) r 1 (h - 2 * r - 1) c,
           fillCircleHelper (x + r) (y + r) r 2 (h - 2 * r - 1) c])"

section \<open>Triangles\<close>

text \<open>
  \<^verbatim>\<open>fillTriangle\<close> keeps the running numerators \<^verbatim>\<open>sa\<close> and \<^verbatim>\<open>sb\<close> in
  \<^verbatim>\<open>int32_t\<close>.
\<close>

definition i32 :: "int \<Rightarrow> int32" where
  "i32 k = word_of_int k"

text \<open>
  The division of C rounds towards zero, and a division by zero does not return.
\<close>

definition c_div :: "int \<Rightarrow> int \<Rightarrow> int option" where
  "c_div a b = (if b = 0 then None else Some (a sdiv b))"

text \<open>
  The two scanline loops of \<^verbatim>\<open>fillTriangle\<close> have the same body. The first is
  \<open>fillTriangle_rows x0 dy01 dx01 x0 dy02 dx02 last_y y0 0 0\<close>: it computes
  \<^verbatim>\<open>a = x0 + sa / dy01\<close> and \<^verbatim>\<open>b = x0 + sb / dy02\<close>. The second is
  \<open>fillTriangle_rows x1 dy12 dx12 x0 dy02 dx02 y2 y sa sb\<close>, with
  \<^verbatim>\<open>a = x1 + sa / dy12\<close>. The row counter \<^verbatim>\<open>y\<close> is an \<^verbatim>\<open>int16_t\<close>, so a loop whose
  last row is 32767 does not end. The loop returns the calls of \<^verbatim>\<open>drawFastHLine\<close> it
  has made and the value of \<^verbatim>\<open>y\<close> at its exit, from which the second loop starts.
\<close>

partial_function (option) fillTriangle_rows ::
  "int16 \<Rightarrow> int16 \<Rightarrow> int16 \<Rightarrow> int16 \<Rightarrow> int16 \<Rightarrow> int16 \<Rightarrow> int16 \<Rightarrow>
   int16 \<Rightarrow> int32 \<Rightarrow> int32 \<Rightarrow> (fast_line list \<times> int16) option" where
  "fillTriangle_rows xa dya dxa xb dyb dxb last_y y sa sb =
     (if sint y \<le> sint last_y then
        Option.bind (c_div (sint sa) (sint dya)) (\<lambda>qa.
        Option.bind (c_div (sint sb) (sint dyb)) (\<lambda>qb.
          (let a = i16 (sint xa + qa);
               b = i16 (sint xb + qb);
               sa = i32 (sint sa + sint dxa);
               sb = i32 (sint sb + sint dxb);
               (a, b) = (if sint a > sint b then (b, a) else (a, b))
           in Option.bind (fillTriangle_rows xa dya dxa xb dyb dxb last_y (y + 1) sa sb)
                (\<lambda>(ls, y'). Some (FastHLine a y (b - a + 1) # ls, y')))))
      else Some ([], y))"

declare fillTriangle_rows.simps [code]

text \<open>
  \<^verbatim>\<open>fillTriangle\<close> first sorts the vertices by \<open>y\<close> with three conditional swaps
  (\<open>fillTriangle_sort\<close>) and then fills the sorted triangle (\<open>fillTriangle_sorted\<close>).
\<close>

definition fillTriangle_sort ::
  "int16 \<Rightarrow> int16 \<Rightarrow> int16 \<Rightarrow> int16 \<Rightarrow> int16 \<Rightarrow> int16 \<Rightarrow>
   int16 \<times> int16 \<times> int16 \<times> int16 \<times> int16 \<times> int16" where
  "fillTriangle_sort x0 y0 x1 y1 x2 y2 =
    (let (x0, y0, x1, y1) = (if sint y0 > sint y1 then (x1, y1, x0, y0) else (x0, y0, x1, y1));
         (x1, y1, x2, y2) = (if sint y1 > sint y2 then (x2, y2, x1, y1) else (x1, y1, x2, y2));
         (x0, y0, x1, y1) = (if sint y0 > sint y1 then (x1, y1, x0, y0) else (x0, y0, x1, y1))
     in (x0, y0, x1, y1, x2, y2))"

definition fillTriangle_sorted ::
  "int16 \<Rightarrow> int16 \<Rightarrow> int16 \<Rightarrow> int16 \<Rightarrow> int16 \<Rightarrow> int16 \<Rightarrow> fast_line list option" where
  "fillTriangle_sorted x0 y0 x1 y1 x2 y2 =
    (if y0 = y2 then
       (let a = x0; b = x0;
            (a, b) = (if sint x1 < sint a then (x1, b)
                      else if sint x1 > sint b then (a, x1) else (a, b));
            (a, b) = (if sint x2 < sint a then (x2, b)
                      else if sint x2 > sint b then (a, x2) else (a, b))
        in Some [FastHLine a y0 (b - a + 1)])
     else
       (let dx01 = x1 - x0; dy01 = y1 - y0;
            dx02 = x2 - x0; dy02 = y2 - y0;
            dx12 = x2 - x1; dy12 = y2 - y1;
            last_y = (if y1 = y2 then y1 else y1 - 1)
        in Option.bind (fillTriangle_rows x0 dy01 dx01 x0 dy02 dx02 last_y y0 0 0)
             (\<lambda>(top, y).
                (let sa = i32 (sint dx12 * (sint y - sint y1));
                     sb = i32 (sint dx02 * (sint y - sint y0))
                 in Option.bind (fillTriangle_rows x1 dy12 dx12 x0 dy02 dx02 y2 y sa sb)
                      (\<lambda>(bot, y). Some (top @ bot))))))"

definition fillTriangle_calls ::
  "int16 \<Rightarrow> int16 \<Rightarrow> int16 \<Rightarrow> int16 \<Rightarrow> int16 \<Rightarrow> int16 \<Rightarrow> fast_line list option" where
  "fillTriangle_calls x0 y0 x1 y1 x2 y2 =
    (case fillTriangle_sort x0 y0 x1 y1 x2 y2 of
       (x0, y0, x1, y1, x2, y2) \<Rightarrow> fillTriangle_sorted x0 y0 x1 y1 x2 y2)"

definition fillTriangle ::
  "int16 \<Rightarrow> int16 \<Rightarrow> int16 \<Rightarrow> int16 \<Rightarrow> int16 \<Rightarrow> int16 \<Rightarrow> color \<Rightarrow> event list option" where
  "fillTriangle x0 y0 x1 y1 x2 y2 c =
     Option.bind (fillTriangle_calls x0 y0 x1 y1 x2 y2) (draw_all c)"

section \<open>Colour interpolation\<close>

text \<open>
  The parameter \<^verbatim>\<open>t\<close> of \<^verbatim>\<open>interpolateColor\<close> is a \<^verbatim>\<open>float\<close>. Here \<open>t\<close> is the
  real number a finite \<^verbatim>\<open>float\<close> stands for, and \<^verbatim>\<open>(redEnd - redStart) * t\<close> is the
  exact product, where the code rounds the product to a \<^verbatim>\<open>float\<close>. The two agree
  whenever the exact product is itself a \<^verbatim>\<open>float\<close>; that is so when the two channels
  are equal (the product is 0), when \<open>t = 0\<close>, when \<open>t = 1\<close> and when \<open>t = 1/2\<close>, which
  are the inputs of the properties proved below. Infinities and NaN have no image in
  this model. The conversion \<^verbatim>\<open>(int)\<close> cuts the fraction off, towards zero.
\<close>

definition c_trunc :: "real \<Rightarrow> int" where
  "c_trunc v = (if 0 \<le> v then \<lfloor>v\<rfloor> else \<lceil>v\<rceil>)"

definition interpolateColor :: "color \<Rightarrow> color \<Rightarrow> real \<Rightarrow> color" where
  "interpolateColor colorStart colorEnd t =
    (let redStart = drop_bit 11 (uint colorStart) AND 0x1F;
         greenStart = drop_bit 5 (uint colorStart) AND 0x3F;
         blueStart = uint colorStart AND 0x1F;
         redEnd = drop_bit 11 (uint colorEnd) AND 0x1F;
         greenEnd = drop_bit 5 (uint colorEnd) AND 0x3F;
         blueEnd = uint colorEnd AND 0x1F;
         red = redStart + c_trunc (of_int (redEnd - redStart) * t);
         green = greenStart + c_trunc (of_int (greenEnd - greenStart) * t);
         blue = blueStart + c_trunc (of_int (blueEnd - blueStart) * t)
     in word_of_int (push_bit 11 red OR push_bit 5 green OR blue))"

section \<open>Notions used in the properties\<close>

text \<open>The points a sequence of pixel writes plots.\<close>

fun pixel_of :: "event \<Rightarrow> (int16 \<times> int16) list" where
  "pixel_of (DrawPixel x y c) = [(x, y)]"
| "pixel_of (FillRectangle x y w h c) = []"

definition plotted :: "event list \<Rightarrow> (int16 \<times> int16) set" where
  "plotted es = set (concat (map pixel_of es))"

text \<open>
  The reflections of a point about the axes through the centre \<open>(x0, y0)\<close> and the swap
  of its two offsets from the centre. They are computed in the arithmetic of the
  coordinates, \<^verbatim>\<open>int16_t\<close>, as the code computes \<^verbatim>\<open>x0 + x\<close> and \<^verbatim>\<open>x0 - x\<close>.
\<close>

definition reflect_v :: "int16 \<Rightarrow> int16 \<times> int16 \<Rightarrow> int16 \<times> int16" where
  "reflect_v x0 p = (x0 - (fst p - x0), snd p)"

definition reflect_h :: "int16 \<Rightarrow> int16 \<times> int16 \<Rightarrow> int16 \<times> int16" where
  "reflect_h y0 p = (fst p, y0 - (snd p - y0))"

definition swap_diag :: "int16 \<Rightarrow> int16 \<Rightarrow> int16 \<times> int16 \<Rightarrow> int16 \<times> int16" where
  "swap_diag x0 y0 p = (x0 + (snd p - y0), y0 + (fst p - x0))"

definition symmetric_about :: "int16 \<Rightarrow> int16 \<Rightarrow> (int16 \<times> int16) set \<Rightarrow> bool" where
  "symmetric_about x0 y0 S \<longleftrightarrow>
     reflect_v x0 ` S \<subseteq> S \<and> reflect_h y0 ` S \<subseteq> S \<and> swap_diag x0 y0 ` S \<subseteq> S"

text \<open>
  The two kinds of span a pass of \<^verbatim>\<open>fillCircleHelper\<close> draws: one placed by the current
  \<^verbatim>\<open>x\<close> and \<^verbatim>\<open>y\<close>, one placed by the \<^verbatim>\<open>x\<close> and \<^verbatim>\<open>y\<close> the pass started with.
\<close>

definition current_span :: "int16 \<Rightarrow> int16 \<Rightarrow> int16 \<Rightarrow> pass \<Rightarrow> fast_line \<Rightarrow> bool" where
  "current_span x0 y0 delta p l \<longleftrightarrow>
     l = FastVLine (x0 + x_new p) (y0 - y_new p) (2 * y_new p + delta + 1) \<or>
     l = FastVLine (x0 - x_new p) (y0 - y_new p) (2 * y_new p + delta + 1)"

definition previous_span :: "int16 \<Rightarrow> int16 \<Rightarrow> int16 \<Rightarrow> pass \<Rightarrow> fast_line \<Rightarrow> bool" where
  "previous_span x0 y0 delta p l \<longleftrightarrow>
     l = FastVLine (x0 + y_old p) (y0 - x_old p) (2 * x_old p + delta + 1) \<or>
     l = FastVLine (x0 - y_old p) (y0 - x_old p) (2 * x_old p + delta + 1)"

text \<open>
  The description to be compared with the code: a span has the length
  \<open>2 * y + delta + 1\<close> for the current \<open>y\<close>, lies at the offset \<open>+x\<close> or \<open>-x\<close> from the
  centre, and is drawn only by a pass that changes \<open>y\<close>.
\<close>

fun span_as_claimed :: "int16 \<Rightarrow> int16 \<Rightarrow> pass \<Rightarrow> fast_line \<Rightarrow> bool" where
  "span_as_claimed x0 delta p (FastVLine sx sy sh) \<longleftrightarrow>
     sh = 2 * y_new p + delta + 1 \<and> (sx = x0 + x_new p \<or> sx = x0 - x_new p) \<and>
     y_new p \<noteq> y_old p"
| "span_as_claimed x0 delta p (FastHLine sx sy sw) \<longleftrightarrow> False"

definition pass_as_claimed :: "int16 \<Rightarrow> int16 \<Rightarrow> pass \<Rightarrow> bool" where
  "pass_as_claimed x0 delta p = list_all (span_as_claimed x0 delta p) (lines p)"

section \<open>Properties of the line primitives\<close>

lemma sint16_eq_iff: "sint (x :: int16) = sint y \<longleftrightarrow> x = y"
  by (auto intro: signed_word_eqI)

lemma writeLine_loop_Some_bound:
  assumes "writeLine_loop steep x1 dx dy ystep c x0 y0 err = Some r"
  shows "sint x1 < 32767"
proof (rule writeLine_loop.raw_induct
    [where P = "\<lambda>steep x1 dx dy ystep c x0 y0 err r. sint x1 < 32767", OF _ assms], goal_cases)
  case (1 loop steep x1 dx dy ystep c x0 y0 err r)
  show ?case
  proof (cases "sint x0 \<le> sint x1")
    case True
    with 1(2) obtain r' where
      "loop steep x1 dx dy ystep c (x0 + 1)
         (if sint (err - dy) < 0 then y0 + ystep else y0)
         (if sint (err - dy) < 0 then err - dy + dx else err - dy) = Some r'"
      by (auto simp: Let_def split: bind_splits)
    then show ?thesis by (rule 1(1))
  next
    case False
    then show ?thesis using sint16_upper [of x0] by simp
  qed
qed

lemma writeLine_loop_diverges:
  "sint x1 = 32767 \<Longrightarrow> writeLine_loop steep x1 dx dy ystep c x0 y0 err = None"
  using writeLine_loop_Some_bound [of steep x1 dx dy ystep c x0 y0 err]
  by (cases "writeLine_loop steep x1 dx dy ystep c x0 y0 err") auto

lemma writeLine_loop_returns:
  "sint x1 < 32767 \<Longrightarrow>
   \<exists>r. writeLine_loop steep x1 dx dy ystep c x0 y0 err = Some r \<and>
       length r = nat (sint x1 - sint x0 + 1)"
proof (induction "nat (sint x1 - sint x0 + 1)" arbitrary: x0 y0 err)
  case 0
  then have "\<not> sint x0 \<le> sint x1" by simp
  then show ?case by (subst writeLine_loop.simps) simp
next
  case (Suc n)
  then have le: "sint x0 \<le> sint x1" by simp
  with Suc.prems have s: "sint (x0 + 1) = sint x0 + 1" by (simp add: sint16_succ)
  with Suc(2) have "n = nat (sint x1 - sint (x0 + 1) + 1)" by simp
  from Suc(1) [OF this Suc.prems] obtain r where
    "writeLine_loop steep x1 dx dy ystep c (x0 + 1)
         (if sint (err - dy) < 0 then y0 + ystep else y0)
         (if sint (err - dy) < 0 then err - dy + dx else err - dy) = Some r"
    "length r = nat (sint x1 - sint (x0 + 1) + 1)"
    by blast
  with le s show ?case
    by (subst writeLine_loop.simps) (simp add: Let_def)
qed

lemma writeLine_loop_flat:
  "sint x1 < 32767 \<Longrightarrow> 0 \<le> sint err \<Longrightarrow>
   writeLine_loop False x1 dx 0 ystep c x0 y0 err =
     Some (map (\<lambda>k. DrawPixel (i16 k) y0 c) [sint x0..sint x1])"
proof (induction "nat (sint x1 - sint x0 + 1)" arbitrary: x0)
  case 0
  then have "\<not> sint x0 \<le> sint x1" by simp
  then show ?case by (subst writeLine_loop.simps) simp
next
  case (Suc n)
  then have le: "sint x0 \<le> sint x1" by simp
  with Suc.prems have s: "sint (x0 + 1) = sint x0 + 1" by (simp add: sint16_succ)
  with Suc(2) have "n = nat (sint x1 - sint (x0 + 1) + 1)" by simp
  from Suc(1) [OF this Suc.prems]
  have "writeLine_loop False x1 dx 0 ystep c (x0 + 1) y0 err =
     Some (map (\<lambda>k. DrawPixel (i16 k) y0 c) [sint x0 + 1..sint x1])"
    by (simp add: s)
  with le Suc.prems show ?case
    by (subst writeLine_loop.simps) (simp add: Let_def writePixel_def upto_rec1 [of "sint x0"] i16_def)
qed

lemma writeLine_loop_count:
  assumes "sint x1 < 32767" "sint x0 \<le> sint x1"
  shows "\<exists>es. writeLine_loop steep x1 dx dy ystep c x0 y0 err = Some es \<and>
           int (length es) = sint x1 - sint x0 + 1"
  using writeLine_loop_returns [OF assms(1), of steep dx dy ystep c x0 y0 err] assms(2)
  by auto

lemma writeLine_count:
  assumes "(if \<bar>sint y1 - sint y0\<bar> > \<bar>sint x1 - sint x0\<bar>
            then max (sint y0) (sint y1) else max (sint x0) (sint x1)) < 32767"
  shows "\<exists>es. writeLine x0 y0 x1 y1 c = Some es \<and>
           int (length es) = max \<bar>sint x1 - sint x0\<bar> \<bar>sint y1 - sint y0\<bar> + 1"
proof -
  define steep where "steep = (\<bar>sint y1 - sint y0\<bar> > \<bar>sint x1 - sint x0\<bar>)"
  define a0 where "a0 = (if steep then y0 else x0)"
  define a1 where "a1 = (if steep then y1 else x1)"
  define lo where "lo = (if sint a0 > sint a1 then a1 else a0)"
  define hi where "hi = (if sint a0 > sint a1 then a0 else a1)"
  have "\<exists>dx dy ystep b err. writeLine x0 y0 x1 y1 c = writeLine_loop steep hi dx dy ystep c lo b err"
    by (auto simp add: writeLine_def Let_def steep_def a0_def a1_def lo_def hi_def; blast)
  then obtain dx dy ystep b err where
    eq: "writeLine x0 y0 x1 y1 c = writeLine_loop steep hi dx dy ystep c lo b err"
    by blast
  have hi: "sint hi < 32767"
    using assms by (auto simp add: steep_def a0_def a1_def hi_def split: if_splits)
  have le: "sint lo \<le> sint hi"
    by (simp add: lo_def hi_def)
  have len: "sint hi - sint lo = max \<bar>sint x1 - sint x0\<bar> \<bar>sint y1 - sint y0\<bar>"
    by (auto simp add: steep_def a0_def a1_def lo_def hi_def)
  from writeLine_loop_count [OF hi le, of steep dx dy ystep c b err] eq len
  show ?thesis by auto
qed

lemma writeLine_None:
  assumes "(if \<bar>sint y1 - sint y0\<bar> > \<bar>sint x1 - sint x0\<bar>
            then max (sint y0) (sint y1) else max (sint x0) (sint x1)) = 32767"
  shows "writeLine x0 y0 x1 y1 c = None"
  using assms
  by (auto simp add: writeLine_def Let_def max_def writeLine_loop_diverges split: if_splits)

lemma sint16_diff:
  "- 32768 \<le> sint (a :: int16) - sint b \<Longrightarrow> sint a - sint b \<le> 32767 \<Longrightarrow>
   sint (a - b) = sint a - sint b"
proof -
  assume b: "- 32768 \<le> sint a - sint b" "sint a - sint b \<le> 32767"
  have "a - b = i16 (sint a - sint b)" by (simp add: i16_def)
  with b show ?thesis by (simp add: sint_i16)
qed

lemma writeLine_horizontal:
  assumes "sint x0 \<le> sint x1" "sint x1 < 32767" "sint x1 - sint x0 \<le> 32767"
  shows "writeLine x0 y x1 y c = Some (map (\<lambda>k. DrawPixel (i16 k) y c) [sint x0..sint x1])"
proof -
  from assms have d: "sint (x1 - x0) = sint x1 - sint x0"
    by (simp add: sint16_diff)
  have "0 \<le> sint (x1 - x0) sdiv 2" "sint (x1 - x0) sdiv 2 \<le> 32767"
    using assms d by (auto simp add: signed_divide_int_def sgn_if)
  then have e: "0 \<le> sint (i16 (sint (x1 - x0) sdiv 2))"
    by (simp add: sint_i16)
  have z: "i16 0 = 0" by (simp add: i16_def)
  from assms(1) show ?thesis
    by (simp add: writeLine_def Let_def z writeLine_loop_flat [OF assms(2) e])
qed

lemma writeLine_sym: "writeLine x0 y0 x1 y1 c = writeLine x1 y1 x0 y0 c"
proof -
  have abs_swap: "\<bar>sint y1 - sint y0\<bar> = \<bar>sint y0 - sint y1\<bar>"
                 "\<bar>sint x1 - sint x0\<bar> = \<bar>sint x0 - sint x1\<bar>"
    by simp_all
  show ?thesis
  proof (cases "\<bar>sint y1 - sint y0\<bar> > \<bar>sint x1 - sint x0\<bar>")
    case True
    then have ne: "sint y0 \<noteq> sint y1" by auto
    from True show ?thesis
      using ne by (cases "sint y0 < sint y1") (simp_all add: writeLine_def abs_swap [symmetric])
  next
    case False
    show ?thesis
    proof (cases "sint x0 = sint x1")
      case True
      with False have "sint y0 = sint y1" by simp
      with True have "x0 = x1" "y0 = y1" by (simp_all add: sint16_eq_iff)
      then show ?thesis by simp
    next
      case ne: False
      from False ne show ?thesis
        by (cases "sint x0 < sint x1") (simp_all add: writeLine_def abs_swap [symmetric])
    qed
  qed
qed

text \<open>
  C3. For every pair of points and every colour, \<open>drawLine\<close> from the first point to the
  second and \<open>drawLine\<close> from the second to the first make the same sequence of pixel
  writes; so they draw the same set of pixels.
\<close>

theorem drawLine_reversible:
  "drawLine x0 y0 x1 y1 c = drawLine x1 y1 x0 y0 c"
proof (cases "x0 = x1")
  case True
  then show ?thesis
    by (cases "sint y0 = sint y1") (auto simp add: drawLine_def sint16_eq_iff)
next
  case False
  then show ?thesis
    by (cases "sint x0 = sint x1") (auto simp add: drawLine_def sint16_eq_iff writeLine_sym)
qed

theorem drawLine_reversible_witness:
  "drawLine 0 0 3 2 7 = drawLine 3 2 0 0 7 \<and>
   drawLine 0 0 3 2 7 = Some [DrawPixel 0 0 7, DrawPixel 1 1 7, DrawPixel 2 1 7, DrawPixel 3 2 7]"
  using drawLine_reversible [of 0 0 3 2 7]
  by (simp add: drawLine_def writeLine_def writeLine_loop.simps writePixel_def i16_def)

text \<open>
  \<open>drawLine\<close> returns whenever no coordinate is 32767, with the pixel count of \<open>writeLine\<close>.
\<close>

lemma drawLine_returns:
  assumes "sint x0 < 32767" "sint y0 < 32767" "sint x1 < 32767" "sint y1 < 32767"
  shows "\<exists>es. drawLine x0 y0 x1 y1 c = Some es \<and>
           int (length es) = max \<bar>sint x1 - sint x0\<bar> \<bar>sint y1 - sint y0\<bar> + 1"
proof -
  have w: "\<And>a b a' b'. sint a < 32767 \<Longrightarrow> sint b < 32767 \<Longrightarrow> sint a' < 32767 \<Longrightarrow>
      sint b' < 32767 \<Longrightarrow>
      \<exists>es. writeLine a b a' b' c = Some es \<and>
        int (length es) = max \<bar>sint a' - sint a\<bar> \<bar>sint b' - sint b\<bar> + 1"
    by (rule writeLine_count) simp
  show ?thesis
  proof (cases "x0 = x1")
    case True
    show ?thesis
    proof (cases "sint y0 > sint y1")
      case gt: True
      with True w [OF assms(1) assms(4) assms(1) assms(2)] show ?thesis
        by (simp add: drawLine_def drawFastVLine_def)
    next
      case le: False
      with True w [OF assms(1) assms(2) assms(1) assms(4)] show ?thesis
        by (simp add: drawLine_def drawFastVLine_def)
    qed
  next
    case False
    show ?thesis
    proof (cases "y0 = y1")
      case eq: True
      show ?thesis
      proof (cases "sint x0 > sint x1")
        case gt: True
        with False eq w [OF assms(3) assms(2) assms(1) assms(2)] show ?thesis
          by (simp add: drawLine_def drawFastHLine_def)
      next
        case le: False
        with False eq w [OF assms(1) assms(2) assms(3) assms(2)] show ?thesis
          by (simp add: drawLine_def drawFastHLine_def)
      qed
    next
      case ne: False
      with False w [OF assms] show ?thesis
        by (simp add: drawLine_def)
    qed
  qed
qed

lemma sint16_offset:
  "- 32768 \<le> sint (x :: int16) + sint (w :: int16) - 1 \<Longrightarrow> sint x + sint w - 1 \<le> 32767 \<Longrightarrow>
   sint (x + w - 1) = sint x + sint w - 1"
proof -
  assume b: "- 32768 \<le> sint x + sint w - 1" "sint x + sint w - 1 \<le> 32767"
  have "x + w - 1 = i16 (sint x + sint w - 1)" by (simp add: i16_def)
  with b show ?thesis by (simp add: sint_i16)
qed

lemma drawFastHLine_count:
  assumes "sint x < 32767" "- 32768 \<le> sint x + sint w - 1" "sint x + sint w - 1 < 32767"
  shows "\<exists>es. drawFastHLine x y w c = Some es \<and> int (length es) = \<bar>sint w - 1\<bar> + 1"
proof -
  from assms have e: "sint (x + w - 1) = sint x + sint w - 1"
    by (simp add: sint16_offset)
  with assms have
    "(if \<bar>sint y - sint y\<bar> > \<bar>sint (x + w - 1) - sint x\<bar>
      then max (sint y) (sint y) else max (sint x) (sint (x + w - 1))) < 32767"
    by simp
  from writeLine_count [OF this, of c] e show ?thesis
    by (simp add: drawFastHLine_def)
qed

lemma drawFastVLine_count:
  assumes "sint x < 32767" "sint y < 32767"
    "- 32768 \<le> sint y + sint h - 1" "sint y + sint h - 1 < 32767"
  shows "\<exists>es. drawFastVLine x y h c = Some es \<and> int (length es) = \<bar>sint h - 1\<bar> + 1"
proof -
  from assms have e: "sint (y + h - 1) = sint y + sint h - 1"
    by (simp add: sint16_offset)
  with assms have
    "(if \<bar>sint (y + h - 1) - sint y\<bar> > \<bar>sint x - sint x\<bar>
      then max (sint y) (sint (y + h - 1)) else max (sint x) (sint x)) < 32767"
    by simp
  from writeLine_count [OF this, of c] e show ?thesis
    by (simp add: drawFastVLine_def)
qed

text \<open>
  C1, as the code has it. The claim that a rectangle of zero or negative width or
  height is drawn as nothing fails: \<^verbatim>\<open>drawFastHLine(x, y, w)\<close> is
  \<^verbatim>\<open>writeLine(x, y, x + w - 1, y)\<close> with no test of \<^verbatim>\<open>w\<close>, and \<^verbatim>\<open>writeLine\<close> orders its
  endpoints, so a length \<open>n \<le> 0\<close> gives the \<open>2 - n\<close> pixels between the offsets
  \<open>n - 1\<close> and \<open>0\<close>. What holds: for every origin \<open>(x, y)\<close>, colour, width \<open>w\<close> and
  height \<open>h\<close> (zero and negative ones too) with \<open>x\<close>, \<open>y\<close>, \<open>x + w - 1\<close> and
  \<open>y + h - 1\<close> between -32768 and 32766, \<open>drawRect\<close> returns after exactly
  \<open>2 * (\<bar>w - 1\<bar> + 1) + 2 * (\<bar>h - 1\<bar> + 1)\<close> pixel writes, which are at least four.
\<close>

theorem drawRect_pixel_count:
  assumes "sint x < 32767" "sint y < 32767"
    "- 32768 \<le> sint x + sint w - 1" "sint x + sint w - 1 < 32767"
    "- 32768 \<le> sint y + sint h - 1" "sint y + sint h - 1 < 32767"
  shows "\<exists>es. drawRect x y w h c = Some es \<and>
           int (length es) = 2 * (\<bar>sint w - 1\<bar> + 1) + 2 * (\<bar>sint h - 1\<bar> + 1)"
proof -
  from assms have e: "sint (x + w - 1) < 32767"
    by (simp add: sint16_offset)
  obtain e1 where 1: "drawFastHLine x y w c = Some e1" "int (length e1) = \<bar>sint w - 1\<bar> + 1"
    using drawFastHLine_count [OF assms(1,3,4)] by blast
  obtain e2 where 2: "drawFastHLine x (y + h - 1) w c = Some e2"
      "int (length e2) = \<bar>sint w - 1\<bar> + 1"
    using drawFastHLine_count [OF assms(1,3,4)] by blast
  obtain e3 where 3: "drawFastVLine x y h c = Some e3" "int (length e3) = \<bar>sint h - 1\<bar> + 1"
    using drawFastVLine_count [OF assms(1,2,5,6)] by blast
  obtain e4 where 4: "drawFastVLine (x + w - 1) y h c = Some e4"
      "int (length e4) = \<bar>sint h - 1\<bar> + 1"
    using drawFastVLine_count [OF e assms(2,5,6)] by blast
  from 1 2 3 4 show ?thesis
    by (simp add: drawRect_def)
qed

theorem drawRect_pixel_count_witness:
  "\<exists>es. drawRect 10 10 0 (- 2) 1 = Some es \<and> int (length es) = 12"
  using drawRect_pixel_count [of 10 10 0 "- 2" 1] by simp

theorem drawRect_zero_size_draws:
  "drawRect 10 10 0 0 1 =
     Some [DrawPixel 9 10 1, DrawPixel 10 10 1, DrawPixel 9 9 1, DrawPixel 10 9 1,
           DrawPixel 10 9 1, DrawPixel 10 10 1, DrawPixel 9 9 1, DrawPixel 9 10 1]
   \<and> drawFastHLine 10 10 0 1 = Some [DrawPixel 9 10 1, DrawPixel 10 10 1]
   \<and> drawFastVLine 10 10 (- 1) 1 = Some [DrawPixel 10 8 1, DrawPixel 10 9 1, DrawPixel 10 10 1]"
  by (simp add: drawRect_def drawFastHLine_def drawFastVLine_def writeLine_def
      writeLine_loop.simps writePixel_def i16_def signed_divide_int_def)

text \<open>
  Where the counter of the loop stays below 32767, \<open>writeLine\<close> does what it is written
  to do: for every pair of endpoints whose greater major-axis coordinate (the greater
  \<open>y\<close> when \<open>\<bar>dy\<bar> > \<bar>dx\<bar>\<close>, the greater \<open>x\<close> otherwise) is below 32767 it returns
  after exactly \<open>max \<bar>x1 - x0\<bar> \<bar>y1 - y0\<bar> + 1\<close> pixel writes, and from \<open>(0, 0)\<close> to
  \<open>(dx, 0)\<close> with \<open>0 \<le> dx < 32767\<close> it writes exactly the pixels \<open>(0, 0)\<close>, ...,
  \<open>(dx, 0)\<close>.
\<close>

lemma writeLine_pixel_count:
  "((if \<bar>sint y1 - sint y0\<bar> > \<bar>sint x1 - sint x0\<bar>
     then max (sint y0) (sint y1) else max (sint x0) (sint x1)) < 32767 \<longrightarrow>
    (\<exists>es. writeLine x0 y0 x1 y1 c = Some es \<and>
       int (length es) = max \<bar>sint x1 - sint x0\<bar> \<bar>sint y1 - sint y0\<bar> + 1))
   \<and> (0 \<le> sint dx \<and> sint dx < 32767 \<longrightarrow>
    writeLine 0 0 dx 0 c = Some (map (\<lambda>k. DrawPixel (i16 k) 0 c) [0..sint dx]))"
proof (intro conjI impI)
  assume "(if \<bar>sint y1 - sint y0\<bar> > \<bar>sint x1 - sint x0\<bar>
     then max (sint y0) (sint y1) else max (sint x0) (sint x1)) < 32767"
  then show "\<exists>es. writeLine x0 y0 x1 y1 c = Some es \<and>
       int (length es) = max \<bar>sint x1 - sint x0\<bar> \<bar>sint y1 - sint y0\<bar> + 1"
    by (rule writeLine_count)
next
  assume "0 \<le> sint dx \<and> sint dx < 32767"
  then have "sint (0 :: int16) \<le> sint dx" "sint dx < 32767" "sint dx - sint (0 :: int16) \<le> 32767"
    by simp_all
  from writeLine_horizontal [OF this, of 0 c]
  show "writeLine 0 0 dx 0 c = Some (map (\<lambda>k. DrawPixel (i16 k) 0 c) [0..sint dx])"
    by simp
qed

lemma writeLine_pixel_count_example:
  "(\<exists>es. writeLine 0 0 5 2 7 = Some es \<and> int (length es) = 6)
   \<and> writeLine 0 0 3 0 7 = Some [DrawPixel 0 0 7, DrawPixel 1 0 7, DrawPixel 2 0 7, DrawPixel 3 0 7]"
  using writeLine_pixel_count [of 5 0 2 0 7 3]
  by (simp add: upto_rec1 i16_def)

text \<open>
  C2. \<open>writeLine\<close> is written to emit one pixel for every step of the major axis, from
  the lesser to the greater coordinate, and then to return: \<open>max \<bar>dx\<bar> \<bar>dy\<bar> + 1\<close> pixel
  writes. The code misses this where the greater major-axis coordinate is 32767: the
  counter of \<^verbatim>\<open>for (; x0<=x1; x0++)\<close> is an \<^verbatim>\<open>int16_t\<close>, the increment at 32767 gives
  -32768, the test \<^verbatim>\<open>x0 <= x1\<close> never fails, and the call goes on writing pixels without
  end. The call from \<open>(0, 0)\<close> to \<open>(32767, 0)\<close>, an instance of both parts of the
  claim with \<open>dx = 32767\<close>, does not return.
\<close>

theorem writeLine_at_32767_never_returns:
  "writeLine 0 0 32767 0 0 = None"
  by (rule writeLine_None) simp

section \<open>Properties of the circle primitives\<close>

lemma plotted_append: "plotted (es @ fs) = plotted es \<union> plotted fs"
  by (simp add: plotted_def)

lemma plotted_Cons: "plotted (DrawPixel x y c # es) = insert (x, y) (plotted es)"
  by (simp add: plotted_def)

lemma plotted_Nil: "plotted [] = {}"
  by (simp add: plotted_def)

lemma symmetric_about_Un:
  "symmetric_about x0 y0 S \<Longrightarrow> symmetric_about x0 y0 T \<Longrightarrow> symmetric_about x0 y0 (S \<union> T)"
  by (auto simp add: symmetric_about_def)

lemma symmetric_about_empty: "symmetric_about x0 y0 {}"
  by (simp add: symmetric_about_def)

lemma octants_symmetric:
  "symmetric_about x0 y0
     {(x0 + x, y0 + y), (x0 - x, y0 + y), (x0 + x, y0 - y), (x0 - x, y0 - y),
      (x0 + y, y0 + x), (x0 - y, y0 + x), (x0 + y, y0 - x), (x0 - y, y0 - x)}"
  by (simp add: symmetric_about_def reflect_v_def reflect_h_def swap_diag_def)

lemma drawCircle_loop_symmetric:
  "symmetric_about x0 y0 (plotted (drawCircle_loop x0 y0 c f ddF_x ddF_y x y))"
proof (induction x0 y0 c f ddF_x ddF_y x y rule: drawCircle_loop.induct)
  case (1 x0 y0 c f ddF_x ddF_y x y)
  show ?case
  proof (cases "sint x < sint y")
    case True
    define y' where "y' = (if 0 \<le> sint f then y - 1 else y)"
    define ddF_y' where "ddF_y' = (if 0 \<le> sint f then ddF_y + 2 else ddF_y)"
    define f' where "f' = (if 0 \<le> sint f then f + ddF_y' else f) + (ddF_x + 2)"
    define x' where "x' = x + 1"
    have unfold: "plotted (drawCircle_loop x0 y0 c f ddF_x ddF_y x y) =
        {(x0 + x', y0 + y'), (x0 - x', y0 + y'), (x0 + x', y0 - y'), (x0 - x', y0 - y'),
         (x0 + y', y0 + x'), (x0 - y', y0 + x'), (x0 + y', y0 - x'), (x0 - y', y0 - x')}
        \<union> plotted (drawCircle_loop x0 y0 c f' (ddF_x + 2) ddF_y' x' y')"
      using True
      by (subst drawCircle_loop.simps)
         (simp add: Let_def writePixel_def plotted_append plotted_Cons plotted_Nil
            y'_def ddF_y'_def f'_def x'_def del: drawCircle_loop.simps)
    have "symmetric_about x0 y0 (plotted (drawCircle_loop x0 y0 c f' (ddF_x + 2) ddF_y' x' y'))"
      by (rule 1 [OF True refl refl refl refl refl refl refl, folded y'_def ddF_y'_def x'_def, folded f'_def])
    then show ?thesis
      unfolding unfold by (intro symmetric_about_Un octants_symmetric)
  next
    case False
    then show ?thesis
      by (subst drawCircle_loop.simps) (simp add: plotted_Nil symmetric_about_empty)
  qed
qed

lemma axis_points_symmetric:
  "symmetric_about x0 y0 {(x0, y0 + r), (x0, y0 - r), (x0 + r, y0), (x0 - r, y0)}"
  by (simp add: symmetric_about_def reflect_v_def reflect_h_def swap_diag_def)

lemma drawCircle_symmetric_about:
  "symmetric_about x0 y0 (plotted (drawCircle x0 y0 r c))"
proof -
  have "plotted (drawCircle x0 y0 r c) =
      {(x0, y0 + r), (x0, y0 - r), (x0 + r, y0), (x0 - r, y0)}
      \<union> plotted (drawCircle_loop x0 y0 c (1 - r) 1 (- 2 * r) 0 r)"
    by (simp add: drawCircle_def writePixel_def plotted_append plotted_Cons plotted_Nil)
  then show ?thesis
    by (simp only: symmetric_about_Un axis_points_symmetric drawCircle_loop_symmetric)
qed

lemma reflect_involutions:
  "reflect_v x0 (reflect_v x0 p) = p"
  "reflect_h y0 (reflect_h y0 p) = p"
  "swap_diag x0 y0 (swap_diag x0 y0 p) = p"
  by (simp_all add: reflect_v_def reflect_h_def swap_diag_def)

text \<open>
  C4. For every centre \<open>(x0, y0)\<close>, every radius (non-negative or not) and every colour,
  the set of points plotted by \<open>drawCircle\<close> is mapped onto itself by the reflection about
  the vertical axis through the centre, by the reflection about the horizontal axis
  through the centre, and by the swap of the two offsets from the centre.
\<close>

theorem drawCircle_symmetric:
  "reflect_v x0 ` plotted (drawCircle x0 y0 r c) = plotted (drawCircle x0 y0 r c)
   \<and> reflect_h y0 ` plotted (drawCircle x0 y0 r c) = plotted (drawCircle x0 y0 r c)
   \<and> swap_diag x0 y0 ` plotted (drawCircle x0 y0 r c) = plotted (drawCircle x0 y0 r c)"
proof -
  let ?S = "plotted (drawCircle x0 y0 r c)"
  have sub: "reflect_v x0 ` ?S \<subseteq> ?S" "reflect_h y0 ` ?S \<subseteq> ?S" "swap_diag x0 y0 ` ?S \<subseteq> ?S"
    using drawCircle_symmetric_about [of x0 y0 r c] by (simp_all add: symmetric_about_def)
  have "?S \<subseteq> reflect_v x0 ` ?S"
  proof
    fix p assume "p \<in> ?S"
    with sub(1) have "reflect_v x0 p \<in> ?S" by blast
    then have "reflect_v x0 (reflect_v x0 p) \<in> reflect_v x0 ` ?S" by (rule imageI)
    then show "p \<in> reflect_v x0 ` ?S" by (simp add: reflect_involutions)
  qed
  moreover have "?S \<subseteq> reflect_h y0 ` ?S"
  proof
    fix p assume "p \<in> ?S"
    with sub(2) have "reflect_h y0 p \<in> ?S" by blast
    then have "reflect_h y0 (reflect_h y0 p) \<in> reflect_h y0 ` ?S" by (rule imageI)
    then show "p \<in> reflect_h y0 ` ?S" by (simp add: reflect_involutions)
  qed
  moreover have "?S \<subseteq> swap_diag x0 y0 ` ?S"
  proof
    fix p assume "p \<in> ?S"
    with sub(3) have "swap_diag x0 y0 p \<in> ?S" by blast
    then have "swap_diag x0 y0 (swap_diag x0 y0 p) \<in> swap_diag x0 y0 ` ?S" by (rule imageI)
    then show "p \<in> swap_diag x0 y0 ` ?S" by (simp add: reflect_involutions)
  qed
  ultimately show ?thesis using sub by blast
qed

theorem drawCircle_symmetric_witness:
  "reflect_v 10 ` plotted (drawCircle 10 20 2 1) = plotted (drawCircle 10 20 2 1)
   \<and> reflect_h 20 ` plotted (drawCircle 10 20 2 1) = plotted (drawCircle 10 20 2 1)
   \<and> swap_diag 10 20 ` plotted (drawCircle 10 20 2 1) = plotted (drawCircle 10 20 2 1)
   \<and> plotted (drawCircle 10 20 2 1) =
       {(10, 22), (10, 18), (12, 20), (8, 20), (11, 22), (9, 22), (11, 18), (9, 18),
        (12, 21), (8, 21), (12, 19), (8, 19)}"
  using drawCircle_symmetric [of 10 20 2 1]
  by (simp add: drawCircle_def writePixel_def plotted_def insert_commute)


text \<open>
  Where the mirror image of a coordinate fits into 16 bits, the reflections are the
  reflections of the integer plane.
\<close>

lemma reflections_in_range:
  "- 32768 \<le> 2 * sint x0 - sint px \<Longrightarrow> 2 * sint x0 - sint px \<le> 32767 \<Longrightarrow>
     sint (fst (reflect_v x0 (px, py))) = 2 * sint x0 - sint px"
  "- 32768 \<le> 2 * sint y0 - sint py \<Longrightarrow> 2 * sint y0 - sint py \<le> 32767 \<Longrightarrow>
     sint (snd (reflect_h y0 (px, py))) = 2 * sint y0 - sint py"
proof -
  have v: "fst (reflect_v x0 (px, py)) = i16 (2 * sint x0 - sint px)"
    by (simp add: reflect_v_def i16_def)
  have h: "snd (reflect_h y0 (px, py)) = i16 (2 * sint y0 - sint py)"
    by (simp add: reflect_h_def i16_def)
  show "- 32768 \<le> 2 * sint x0 - sint px \<Longrightarrow> 2 * sint x0 - sint px \<le> 32767 \<Longrightarrow>
     sint (fst (reflect_v x0 (px, py))) = 2 * sint x0 - sint px"
    by (simp only: v sint_i16)
  show "- 32768 \<le> 2 * sint y0 - sint py \<Longrightarrow> 2 * sint y0 - sint py \<le> 32767 \<Longrightarrow>
     sint (snd (reflect_h y0 (px, py))) = 2 * sint y0 - sint py"
    by (simp only: h sint_i16)
qed

lemma fillCircleHelper_loop_spans:
  "px = x \<Longrightarrow> py = y \<Longrightarrow>
   p \<in> set (fillCircleHelper_loop x0 y0 corners (delta + 1) f ddF_x ddF_y x y px py) \<Longrightarrow>
   l \<in> set (lines p) \<Longrightarrow>
     (current_span x0 y0 delta p l \<and> sint (x_new p) \<le> sint (y_new p)) \<or>
     (previous_span x0 y0 delta p l \<and> y_new p \<noteq> y_old p)"
proof (induction x0 y0 corners "delta + 1" f ddF_x ddF_y x y px py
    rule: fillCircleHelper_loop.induct)
  case (1 x0 y0 corners f ddF_x ddF_y x y px py)
  show ?case
  proof (cases "sint x < sint y")
    case True
    define y' where "y' = (if 0 \<le> sint f then y - 1 else y)"
    define ddF_y' where "ddF_y' = (if 0 \<le> sint f then ddF_y + 2 else ddF_y)"
    define f' where "f' = (if 0 \<le> sint f then f + ddF_y' else f) + (ddF_x + 2)"
    define x' where "x' = x + 1"
    define ls where "ls =
       (if sint x' < sint y' + 1 then
          (if corners AND 1 \<noteq> 0 then [FastVLine (x0 + x') (y0 - y') (2 * y' + (delta + 1))] else [])
          @ (if corners AND 2 \<noteq> 0 then [FastVLine (x0 - x') (y0 - y') (2 * y' + (delta + 1))] else [])
        else [])
       @ (if y' \<noteq> y then
          (if corners AND 1 \<noteq> 0 then [FastVLine (x0 + y) (y0 - x) (2 * x + (delta + 1))] else [])
          @ (if corners AND 2 \<noteq> 0 then [FastVLine (x0 - y) (y0 - x) (2 * x + (delta + 1))] else [])
        else [])"
    define p0 where "p0 = \<lparr>x_old = x, y_old = y, x_new = x', y_new = y', lines = ls\<rparr>"
    have unfold: "fillCircleHelper_loop x0 y0 corners (delta + 1) f ddF_x ddF_y x y px py =
        p0 # fillCircleHelper_loop x0 y0 corners (delta + 1) f' (ddF_x + 2) ddF_y' x' y' x' y'"
      using True "1.prems"(1,2)
      by (subst fillCircleHelper_loop.simps)
         (simp add: Let_def y'_def ddF_y'_def f'_def x'_def ls_def p0_def
            del: fillCircleHelper_loop.simps)
    from "1.prems"(3) unfold consider "p = p0"
      | "p \<in> set (fillCircleHelper_loop x0 y0 corners (delta + 1) f' (ddF_x + 2) ddF_y' x' y' x' y')"
      by auto
    then show ?thesis
    proof cases
      case 1
      with "1.prems"(4) show ?thesis
        by (auto simp add: p0_def ls_def current_span_def previous_span_def
            add.assoc split: if_splits)
    next
      case 2
      note IH = "1.hyps" [OF True refl refl refl refl refl refl refl refl refl refl refl refl refl refl,
              folded y'_def ddF_y'_def x'_def, folded f'_def]
      have py': "(if y' \<noteq> py then y' else py) = y'" by simp
      from IH 2 "1.prems"(4) show ?thesis
        by (simp add: py')
    qed
  next
    case False
    with "1.prems"(3) show ?thesis
      by (subst (asm) fillCircleHelper_loop.simps) simp
  qed
qed


text \<open>
  C5, as the code has it. The claim fails for the radius 3: the first pass draws a span
  although \<open>y\<close> does not change, and the second pass draws a span of length 3 at the
  offset 3 while the current values are \<open>x = 2\<close> and \<open>y = 2\<close>. What holds: for every
  centre, radius, side mask and \<open>delta\<close>, every span drawn by a pass of
  \<open>fillCircleHelper\<close> is of one of two kinds. Either it lies at the horizontal offset
  \<open>+x\<close> or \<open>-x\<close> from the centre, starts at the row \<open>y0 - y\<close> and has the length
  \<open>2 * y + delta + 1\<close>, for the values of \<open>x\<close> and \<open>y\<close> after the midpoint update of
  the pass, and then \<open>x \<le> y\<close> holds for these values (whether the pass changed \<open>y\<close> or
  not). Or the pass has changed \<open>y\<close>, and the span lies at the offset \<open>+y'\<close> or \<open>-y'\<close>,
  starts at the row \<open>y0 - x'\<close> and has the length \<open>2 * x' + delta + 1\<close>, for the values
  \<open>x'\<close> and \<open>y'\<close> the pass started with.
\<close>

theorem fillCircleHelper_spans:
  "\<forall>p \<in> set (fillCircleHelper_passes x0 y0 r corners delta). \<forall>l \<in> set (lines p).
     (current_span x0 y0 delta p l \<and> sint (x_new p) \<le> sint (y_new p)) \<or>
     (previous_span x0 y0 delta p l \<and> y_new p \<noteq> y_old p)"
proof (intro ballI)
  fix p l
  assume "p \<in> set (fillCircleHelper_passes x0 y0 r corners delta)" "l \<in> set (lines p)"
  then show "(current_span x0 y0 delta p l \<and> sint (x_new p) \<le> sint (y_new p)) \<or>
     (previous_span x0 y0 delta p l \<and> y_new p \<noteq> y_old p)"
    unfolding fillCircleHelper_passes_def
    by (rule fillCircleHelper_loop_spans [OF refl refl])
qed

theorem fillCircleHelper_spans_witness:
  "fillCircleHelper_passes 0 0 3 1 0 =
     [\<lparr>x_old = 0, y_old = 3, x_new = 1, y_new = 3, lines = [FastVLine 1 (- 3) 7]\<rparr>,
      \<lparr>x_old = 1, y_old = 3, x_new = 2, y_new = 2,
         lines = [FastVLine 2 (- 2) 5, FastVLine 3 (- 1) 3]\<rparr>]
   \<and> current_span 0 0 0 \<lparr>x_old = 0, y_old = 3, x_new = 1, y_new = 3,
         lines = [FastVLine 1 (- 3) 7]\<rparr> (FastVLine 1 (- 3) 7)
   \<and> previous_span 0 0 0 \<lparr>x_old = 1, y_old = 3, x_new = 2, y_new = 2,
         lines = [FastVLine 2 (- 2) 5, FastVLine 3 (- 1) 3]\<rparr> (FastVLine 3 (- 1) 3)"
  using fillCircleHelper_spans [of 0 0 3 1 0]
  by (simp add: fillCircleHelper_passes_def current_span_def previous_span_def)

theorem fillCircleHelper_spans_not_as_claimed:
  "\<not> list_all (pass_as_claimed 0 0) (fillCircleHelper_passes 0 0 3 1 0)
   \<and> \<not> span_as_claimed 0 0 \<lparr>x_old = 0, y_old = 3, x_new = 1, y_new = 3,
         lines = [FastVLine 1 (- 3) 7]\<rparr> (FastVLine 1 (- 3) 7)
   \<and> \<not> span_as_claimed 0 0 \<lparr>x_old = 1, y_old = 3, x_new = 2, y_new = 2,
         lines = [FastVLine 2 (- 2) 5, FastVLine 3 (- 1) 3]\<rparr> (FastVLine 3 (- 1) 3)"
  by (simp add: fillCircleHelper_passes_def pass_as_claimed_def)

section \<open>Properties of the triangle fill\<close>

lemma drawFastHLine_between: "drawFastHLine a y (b - a + 1) c = writeLine a y b y c"
  by (simp add: drawFastHLine_def)

lemma draw_all_single: "draw_all c [l] = draw_fast c l"
  by (cases "draw_fast c l") (simp_all add: draw_all_def)

lemma fillTriangle_calls_flat:
  assumes "y1 = y0" "y2 = y0"
  shows "fillTriangle_calls x0 y0 x1 y1 x2 y2 =
     Some [FastHLine (i16 (min (sint x0) (min (sint x1) (sint x2)))) y0
            (i16 (max (sint x0) (max (sint x1) (sint x2)))
              - i16 (min (sint x0) (min (sint x1) (sint x2))) + 1)]"
  using assms
  by (auto simp add: fillTriangle_calls_def fillTriangle_sort_def fillTriangle_sorted_def
        Let_def i16_def min_def max_def sint16_eq_iff dest: signed_word_eqI)

text \<open>
  For every three vertices with the same \<open>y\<close>, \<open>fillTriangle\<close> makes exactly one call of
  \<^verbatim>\<open>drawFastHLine\<close>: it starts at the least of the three \<open>x\<close> in the row \<open>y\<close> and its
  length is the greatest \<open>x\<close> minus the least plus one, so that what is drawn is the
  line of \<open>writeLine\<close> from the least to the greatest \<open>x\<close> in that row. On \<open>(0,0)\<close>,
  \<open>(5,0)\<close>, \<open>(10,0)\<close> the pixels written are exactly \<open>(0,0)\<close>, ..., \<open>(10,0)\<close>, once
  each.
\<close>

lemma fillTriangle_flat:
  assumes "y1 = y0" "y2 = y0"
  shows "fillTriangle_calls x0 y0 x1 y1 x2 y2 =
     Some [FastHLine (i16 (min (sint x0) (min (sint x1) (sint x2)))) y0
            (i16 (max (sint x0) (max (sint x1) (sint x2)))
              - i16 (min (sint x0) (min (sint x1) (sint x2))) + 1)]
   \<and> fillTriangle x0 y0 x1 y1 x2 y2 c =
       writeLine (i16 (min (sint x0) (min (sint x1) (sint x2)))) y0
                 (i16 (max (sint x0) (max (sint x1) (sint x2)))) y0 c
   \<and> fillTriangle 0 0 5 0 10 0 c = Some (map (\<lambda>k. DrawPixel (i16 k) 0 c) [0..10])"
proof (intro conjI)
  show calls: "fillTriangle_calls x0 y0 x1 y1 x2 y2 =
     Some [FastHLine (i16 (min (sint x0) (min (sint x1) (sint x2)))) y0
            (i16 (max (sint x0) (max (sint x1) (sint x2)))
              - i16 (min (sint x0) (min (sint x1) (sint x2))) + 1)]"
    using assms by (rule fillTriangle_calls_flat)
  then show "fillTriangle x0 y0 x1 y1 x2 y2 c =
       writeLine (i16 (min (sint x0) (min (sint x1) (sint x2)))) y0
                 (i16 (max (sint x0) (max (sint x1) (sint x2)))) y0 c"
    by (simp add: fillTriangle_def draw_all_single drawFastHLine_between)
  have "fillTriangle 0 0 5 0 10 0 c = writeLine 0 0 10 0 c"
    by (simp add: fillTriangle_def fillTriangle_calls_def fillTriangle_sort_def
          fillTriangle_sorted_def draw_all_single drawFastHLine_def)
  also have "\<dots> = Some (map (\<lambda>k. DrawPixel (i16 k) 0 c) [sint (0 :: int16)..sint (10 :: int16)])"
    by (rule writeLine_horizontal) simp_all
  finally show "fillTriangle 0 0 5 0 10 0 c = Some (map (\<lambda>k. DrawPixel (i16 k) 0 c) [0..10])"
    by simp
qed

lemma fillTriangle_flat_example:
  "fillTriangle_calls 7 3 2 3 4 3 = Some [FastHLine 2 3 6]
   \<and> fillTriangle 7 3 2 3 4 3 1 =
       Some [DrawPixel 2 3 1, DrawPixel 3 3 1, DrawPixel 4 3 1, DrawPixel 5 3 1,
             DrawPixel 6 3 1, DrawPixel 7 3 1]"
proof -
  have "fillTriangle 7 3 2 3 4 3 1 = writeLine 2 3 7 3 1"
    using fillTriangle_flat [of 3 3 3 7 2 4 1] by (simp add: i16_def)
  moreover have "fillTriangle_calls 7 3 2 3 4 3 = Some [FastHLine 2 3 6]"
    using fillTriangle_flat [of 3 3 3 7 2 4 1] by (simp add: i16_def)
  ultimately show ?thesis
    by (simp add: writeLine_def writeLine_loop.simps writePixel_def i16_def signed_divide_int_def)
qed

text \<open>
  When the greatest \<open>x\<close> is below 32767 and the span is at most 32767 wide, the
  pixels of the span are those of the row from the least to the greatest \<open>x\<close>.
\<close>

lemma fillTriangle_flat_pixels:
  assumes "y1 = y0" "y2 = y0"
    and "max (sint x0) (max (sint x1) (sint x2)) < 32767"
    and "max (sint x0) (max (sint x1) (sint x2)) - min (sint x0) (min (sint x1) (sint x2)) \<le> 32767"
  shows "fillTriangle x0 y0 x1 y1 x2 y2 c =
     Some (map (\<lambda>k. DrawPixel (i16 k) y0 c)
        [min (sint x0) (min (sint x1) (sint x2))..max (sint x0) (max (sint x1) (sint x2))])"
proof -
  let ?lo = "min (sint x0) (min (sint x1) (sint x2))"
  let ?hi = "max (sint x0) (max (sint x1) (sint x2))"
  have lo: "sint (i16 ?lo) = ?lo"
    using sint16_lower [of x0] sint16_lower [of x1] sint16_lower [of x2] sint16_upper [of x0]
    by (intro sint_i16) simp_all
  have hi: "sint (i16 ?hi) = ?hi"
    using sint16_lower [of x0] sint16_upper [of x0] sint16_upper [of x1] sint16_upper [of x2]
    by (intro sint_i16) simp_all
  have "fillTriangle x0 y0 x1 y1 x2 y2 c = writeLine (i16 ?lo) y0 (i16 ?hi) y0 c"
    using fillTriangle_calls_flat [OF assms(1,2), of x0 x1 x2]
    by (simp add: fillTriangle_def draw_all_single drawFastHLine_between)
  also have "\<dots> = Some (map (\<lambda>k. DrawPixel (i16 k) y0 c) [sint (i16 ?lo)..sint (i16 ?hi)])"
    using assms(3,4) by (intro writeLine_horizontal) (simp_all only: lo hi, simp_all)
  finally show ?thesis by (simp only: lo hi)
qed

text \<open>
  \<^verbatim>\<open>writeLine\<close> keeps \<^verbatim>\<open>dx = x1 - x0\<close> in an \<^verbatim>\<open>int16_t\<close>. From \<open>x0 = -20000\<close> to
  \<open>x1 = 20000\<close> the difference 40000 is stored as -25536, the error term starts at
  \<open>dx / 2 = -12768\<close>, and the first step already moves \<open>y\<close> by \<open>ystep = -1\<close>: of the
  40001 pixels of the line, all but the first lie in the row \<open>y - 1\<close>.
\<close>

lemma writeLine_wide_span:
  "writeLine (- 20000) 0 20000 0 c =
     Some (DrawPixel (- 20000) 0 c # map (\<lambda>k. DrawPixel (i16 k) (- 1) c) [- 19999..20000])"
proof -
  have start: "writeLine (- 20000) 0 20000 0 c =
      writeLine_loop False 20000 40000 0 (- 1) c (- 20000) 0 (- 12768)"
    by (simp add: writeLine_def i16_def signed_divide_int_def)
  have step: "writeLine_loop False 20000 40000 0 (- 1) c (- 20000) 0 (- 12768) =
      Option.bind (writeLine_loop False 20000 40000 0 (- 1) c (- 19999) (- 1) 27232)
        (\<lambda>r. Some (DrawPixel (- 20000) 0 c # r))"
    by (subst writeLine_loop.simps) (simp add: writePixel_def)
  have rest: "writeLine_loop False 20000 40000 0 (- 1) c (- 19999) (- 1) 27232 =
      Some (map (\<lambda>k. DrawPixel (i16 k) (- 1) c) [sint (- 19999 :: int16)..sint (20000 :: int16)])"
    by (rule writeLine_loop_flat) simp_all
  have s1: "sint (- 19999 :: int16) = - 19999" and s2: "sint (20000 :: int16) = 20000"
    by simp_all
  show ?thesis
    by (simp only: start step rest [unfolded s1 s2] Option.bind.bind_lunit)
qed

text \<open>
  C6. For three vertices with the same \<open>y\<close>, \<open>fillTriangle\<close> is written to draw one
  horizontal span from the least to the greatest \<open>x\<close> in that row, and it does so when
  the greatest \<open>x\<close> is below 32767 and the span is at most 32767 wide
  (\<open>fillTriangle_flat_pixels\<close>). The code misses this in two places, both in the
  \<open>writeLine\<close> that draws the span. On \<open>(-20000,0)\<close>, \<open>(20000,0)\<close>, \<open>(0,0)\<close> the
  difference \<open>dx\<close> overflows its \<^verbatim>\<open>int16_t\<close>: one pixel is written at \<open>(-20000, 0)\<close> and
  the other 40000 in the row \<open>-1\<close>. On \<open>(0,0)\<close>, \<open>(5,0)\<close>, \<open>(32767,0)\<close> the loop counter
  wraps around at 32767 and the call does not return.
\<close>

theorem fillTriangle_flat_span_overflows:
  "fillTriangle (- 20000) 0 20000 0 0 0 1 =
     Some (DrawPixel (- 20000) 0 1 # map (\<lambda>k. DrawPixel (i16 k) (- 1) 1) [- 19999..20000])
   \<and> fillTriangle 0 0 5 0 32767 0 1 = None"
proof
  have "fillTriangle (- 20000) 0 20000 0 0 0 1 = writeLine (- 20000) 0 20000 0 1"
    by (simp add: fillTriangle_def fillTriangle_calls_def fillTriangle_sort_def
          fillTriangle_sorted_def draw_all_single drawFastHLine_def)
  then show "fillTriangle (- 20000) 0 20000 0 0 0 1 =
     Some (DrawPixel (- 20000) 0 1 # map (\<lambda>k. DrawPixel (i16 k) (- 1) 1) [- 19999..20000])"
    by (simp only: writeLine_wide_span)
  have "fillTriangle 0 0 5 0 32767 0 1 = writeLine 0 0 32767 0 1"
    by (simp add: fillTriangle_def fillTriangle_calls_def fillTriangle_sort_def
          fillTriangle_sorted_def draw_all_single drawFastHLine_def)
  also have "\<dots> = None"
    by (rule writeLine_None) simp
  finally show "fillTriangle 0 0 5 0 32767 0 1 = None" .
qed

lemma fillTriangle_rows_exit:
  assumes "fillTriangle_rows xa dya dxa xb dyb dxb last_y y sa sb = Some r"
  shows "sint (snd r) > sint last_y"
proof (rule fillTriangle_rows.raw_induct
    [where P = "\<lambda>xa dya dxa xb dyb dxb last_y y sa sb r. sint (snd r) > sint last_y",
     OF _ assms], goal_cases)
  case (1 rows xa dya dxa xb dyb dxb last_y y sa sb r)
  show ?case
  proof (cases "sint y \<le> sint last_y")
    case False
    with 1(2) show ?thesis by auto
  next
    case True
    with 1(2) obtain s1 s2 r' where
      "rows xa dya dxa xb dyb dxb last_y (y + 1) s1 s2 = Some r'" "snd r = snd r'"
      by (clarsimp simp add: bind_eq_Some_conv Let_def split_def)
    with 1(1) show ?thesis by simp
  qed
qed

lemma fillTriangle_rows_skip:
  "sint y > sint last_y \<Longrightarrow>
   fillTriangle_rows xa dya dxa xb dyb dxb last_y y sa sb = Some ([], y)"
  by (subst fillTriangle_rows.simps) simp

lemma fillTriangle_rows_div0:
  "sint y \<le> sint last_y \<Longrightarrow> dya = 0 \<or> dyb = 0 \<Longrightarrow>
   fillTriangle_rows xa dya dxa xb dyb dxb last_y y sa sb = None"
  by (subst fillTriangle_rows.simps) (auto simp add: c_div_def)

lemma fillTriangle_rows_never_ends:
  assumes "sint last_y = 32767"
  shows "fillTriangle_rows xa dya dxa xb dyb dxb last_y y sa sb = None"
proof (cases "fillTriangle_rows xa dya dxa xb dyb dxb last_y y sa sb")
  case None
  then show ?thesis .
next
  case (Some r)
  from fillTriangle_rows_exit [OF this] assms sint16_upper [of "snd r"] show ?thesis by simp
qed


lemma sint16_eq_0_iff: "sint (x :: int16) = 0 \<longleftrightarrow> x = 0"
  using sint16_eq_iff [of x 0] by simp

lemma fillTriangle_rows_swap:
  "fillTriangle_rows xa dya dxa xb dyb dxb last_y y sa sb =
   fillTriangle_rows xb dyb dxb xa dya dxa last_y y sb sa"
proof (cases "sint last_y = 32767")
  case True
  then show ?thesis by (simp add: fillTriangle_rows_never_ends)
next
  case False
  then have lt: "sint last_y < 32767"
    using sint16_upper [of last_y] by simp
  show ?thesis
  proof (induction "nat (sint last_y + 1 - sint y)" arbitrary: y sa sb)
    case 0
    then have "sint y > sint last_y" by simp
    then show ?case by (simp add: fillTriangle_rows_skip)
  next
    case (Suc n)
    then have le: "sint y \<le> sint last_y" by simp
    with lt have "sint (y + 1) = sint y + 1" by (simp add: sint16_succ)
    with Suc(2) have n: "n = nat (sint last_y + 1 - sint (y + 1))" by simp
    note IH = Suc(1) [OF n]
    show ?case
    proof (cases "dya = 0 \<or> dyb = 0")
      case True
      then have "dyb = 0 \<or> dya = 0" by blast
      with True le show ?thesis by (simp add: fillTriangle_rows_div0)
    next
      case nz: False
      define a where "a = i16 (sint xa + sint sa sdiv sint dya)"
      define b where "b = i16 (sint xb + sint sb sdiv sint dyb)"
      define lo where "lo = (if sint a > sint b then b else a)"
      define hi where "hi = (if sint a > sint b then a else b)"
      define k where "k = (\<lambda>(ls :: fast_line list, y' :: int16).
                              Some (FastHLine lo y (hi - lo + 1) # ls, y'))"
      have sw1: "(if sint a > sint b then (b, a) else (a, b)) = (lo, hi)"
        by (simp add: lo_def hi_def)
      have sw2: "(if sint b > sint a then (a, b) else (b, a)) = (lo, hi)"
        by (auto simp add: lo_def hi_def sint16_eq_iff [symmetric])
      have L: "fillTriangle_rows xa dya dxa xb dyb dxb last_y y sa sb =
          Option.bind (fillTriangle_rows xa dya dxa xb dyb dxb last_y (y + 1)
             (i32 (sint sa + sint dxa)) (i32 (sint sb + sint dxb))) k"
        using le nz
        by (subst fillTriangle_rows.simps)
           (simp add: c_div_def Let_def sw1 [unfolded a_def b_def] k_def sint16_eq_0_iff)
      have R: "fillTriangle_rows xb dyb dxb xa dya dxa last_y y sb sa =
          Option.bind (fillTriangle_rows xb dyb dxb xa dya dxa last_y (y + 1)
             (i32 (sint sb + sint dxb)) (i32 (sint sa + sint dxa))) k"
        using le nz
        by (subst fillTriangle_rows.simps)
           (simp add: c_div_def Let_def sw2 [unfolded a_def b_def] k_def sint16_eq_0_iff)
      show ?thesis
        unfolding L R IH ..
    qed
  qed
qed


lemma fillTriangle_sorted_flat:
  assumes "y2 = y0"
  shows "fillTriangle_sorted x0 y0 x1 y1 x2 y2 =
     Some [FastHLine (i16 (min (sint x0) (min (sint x1) (sint x2)))) y0
            (i16 (max (sint x0) (max (sint x1) (sint x2)))
              - i16 (min (sint x0) (min (sint x1) (sint x2))) + 1)]"
  using assms
  by (auto simp add: fillTriangle_sorted_def Let_def i16_def min_def max_def sint16_eq_iff
        dest: signed_word_eqI)

lemma fillTriangle_sorted_tie12:
  assumes "sint y1 = sint y2"
  shows "fillTriangle_sorted x0 y0 x1 y1 x2 y2 = fillTriangle_sorted x0 y0 x2 y2 x1 y1"
proof -
  from assms have y: "y2 = y1" by (simp add: sint16_eq_iff)
  show ?thesis
  proof (cases "y0 = y1")
    case True
    with y show ?thesis
      by (simp add: fillTriangle_sorted_flat min.commute max.commute)
  next
    case False
    define top where "top = fillTriangle_rows x0 (y1 - y0) (x1 - x0) x0 (y1 - y0) (x2 - x0) y1 y0 0 0"
    have top': "fillTriangle_rows x0 (y1 - y0) (x2 - x0) x0 (y1 - y0) (x1 - x0) y1 y0 0 0 = top"
      unfolding top_def by (rule fillTriangle_rows_swap)
    have L: "fillTriangle_sorted x0 y0 x1 y1 x2 y2 = map_option fst top"
    proof (cases top)
      case None
      with False y show ?thesis
        by (simp add: fillTriangle_sorted_def Let_def top_def [symmetric])
    next
      case (Some r)
      then have "sint (snd r) > sint y1"
        unfolding top_def by (rule fillTriangle_rows_exit)
      with Some False y show ?thesis
        by (simp add: fillTriangle_sorted_def Let_def top_def [symmetric] split_def
              fillTriangle_rows_skip)
    qed
    have R: "fillTriangle_sorted x0 y0 x2 y2 x1 y1 = map_option fst top"
    proof (cases top)
      case None
      with False y show ?thesis
        by (simp add: fillTriangle_sorted_def Let_def top')
    next
      case (Some r)
      then have "sint (snd r) > sint y1"
        unfolding top_def by (rule fillTriangle_rows_exit)
      with Some False y show ?thesis
        by (simp add: fillTriangle_sorted_def Let_def top' split_def fillTriangle_rows_skip)
    qed
    from L R show ?thesis by simp
  qed
qed

lemma fillTriangle_sorted_tie01:
  assumes "sint y0 = sint y1"
  shows "fillTriangle_sorted x0 y0 x1 y1 x2 y2 = fillTriangle_sorted x1 y1 x0 y0 x2 y2"
proof -
  from assms have y: "y1 = y0" by (simp add: sint16_eq_iff)
  show ?thesis
  proof (cases "y0 = y2")
    case True
    with y show ?thesis
      by (simp add: fillTriangle_sorted_flat min.left_commute max.left_commute)
  next
    case False
    show ?thesis
    proof (cases "sint y0 \<le> sint (y0 - 1)")
      case True
      with False y show ?thesis
        by (simp add: fillTriangle_sorted_def Let_def fillTriangle_rows_div0)
    next
      case skip: False
      then have s: "\<And>xa dya dxa xb dyb dxb sa sb.
          fillTriangle_rows xa dya dxa xb dyb dxb (y0 - 1) y0 sa sb = Some ([], y0)"
        by (simp add: fillTriangle_rows_skip)
      have z: "i32 0 = 0" by (simp add: i32_def)
      from False y show ?thesis
        by (simp add: fillTriangle_sorted_def Let_def s z)
           (subst fillTriangle_rows_swap, rule refl)
    qed
  qed
qed

lemma fillTriangle_calls_swap01:
  "fillTriangle_calls x1 y1 x0 y0 x2 y2 = fillTriangle_calls x0 y0 x1 y1 x2 y2"
  by (auto simp add: fillTriangle_calls_def fillTriangle_sort_def
        intro: fillTriangle_sorted_tie01 fillTriangle_sorted_tie12)

lemma fillTriangle_calls_swap12:
  "fillTriangle_calls x0 y0 x2 y2 x1 y1 = fillTriangle_calls x0 y0 x1 y1 x2 y2"
  by (auto simp add: fillTriangle_calls_def fillTriangle_sort_def
        intro: fillTriangle_sorted_tie01 fillTriangle_sorted_tie12)


text \<open>
  C10. For every three vertices and every colour, \<open>fillTriangle\<close> makes the same sequence
  of pixel writes, and so draws the same set of pixels, for each of the six orders in
  which the vertices can be passed.
\<close>

theorem fillTriangle_permutation_invariant:
  "fillTriangle x1 y1 x0 y0 x2 y2 c = fillTriangle x0 y0 x1 y1 x2 y2 c
   \<and> fillTriangle x0 y0 x2 y2 x1 y1 c = fillTriangle x0 y0 x1 y1 x2 y2 c
   \<and> fillTriangle x2 y2 x1 y1 x0 y0 c = fillTriangle x0 y0 x1 y1 x2 y2 c
   \<and> fillTriangle x1 y1 x2 y2 x0 y0 c = fillTriangle x0 y0 x1 y1 x2 y2 c
   \<and> fillTriangle x2 y2 x0 y0 x1 y1 c = fillTriangle x0 y0 x1 y1 x2 y2 c"
proof -
  have "fillTriangle_calls x2 y2 x1 y1 x0 y0 = fillTriangle_calls x1 y1 x2 y2 x0 y0"
    by (rule fillTriangle_calls_swap01)
  also have "\<dots> = fillTriangle_calls x1 y1 x0 y0 x2 y2"
    by (rule fillTriangle_calls_swap12)
  also have "\<dots> = fillTriangle_calls x0 y0 x1 y1 x2 y2"
    by (rule fillTriangle_calls_swap01)
  finally have rev: "fillTriangle_calls x2 y2 x1 y1 x0 y0 = fillTriangle_calls x0 y0 x1 y1 x2 y2" .
  have "fillTriangle_calls x1 y1 x2 y2 x0 y0 = fillTriangle_calls x1 y1 x0 y0 x2 y2"
    by (rule fillTriangle_calls_swap12)
  also have "\<dots> = fillTriangle_calls x0 y0 x1 y1 x2 y2"
    by (rule fillTriangle_calls_swap01)
  finally have rot1: "fillTriangle_calls x1 y1 x2 y2 x0 y0 = fillTriangle_calls x0 y0 x1 y1 x2 y2" .
  have "fillTriangle_calls x2 y2 x0 y0 x1 y1 = fillTriangle_calls x0 y0 x2 y2 x1 y1"
    by (rule fillTriangle_calls_swap01)
  also have "\<dots> = fillTriangle_calls x0 y0 x1 y1 x2 y2"
    by (rule fillTriangle_calls_swap12)
  finally have rot2: "fillTriangle_calls x2 y2 x0 y0 x1 y1 = fillTriangle_calls x0 y0 x1 y1 x2 y2" .
  show ?thesis
    by (simp only: fillTriangle_def rev rot1 rot2
          fillTriangle_calls_swap01 [of x1 y1 x0 y0 x2 y2]
          fillTriangle_calls_swap12 [of x0 y0 x2 y2 x1 y1])
qed

lemma fillTriangle_calls_example:
  "fillTriangle_calls 1 0 0 1 2 1 = Some [FastHLine 1 0 1, FastHLine 0 1 3]"
  by (simp add: fillTriangle_calls_def fillTriangle_sort_def fillTriangle_sorted_def
        fillTriangle_rows.simps c_div_def i16_def i32_def signed_divide_int_def)

theorem fillTriangle_permutation_invariant_witness:
  "fillTriangle 2 1 0 1 1 0 1 = fillTriangle 1 0 0 1 2 1 1
   \<and> fillTriangle 0 1 2 1 1 0 1 = fillTriangle 1 0 0 1 2 1 1
   \<and> fillTriangle_calls 1 0 0 1 2 1 = Some [FastHLine 1 0 1, FastHLine 0 1 3]
   \<and> fillTriangle 1 0 0 1 2 1 1 =
       Some [DrawPixel 1 0 1, DrawPixel 0 1 1, DrawPixel 1 1 1, DrawPixel 2 1 1]"
  using fillTriangle_permutation_invariant [of 0 1 1 0 2 1 1] fillTriangle_calls_example
  by (simp add: fillTriangle_def draw_all_def drawFastHLine_def writeLine_def
        writeLine_loop.simps writePixel_def i16_def signed_divide_int_def)

section \<open>Properties of the rounded rectangles\<close>

lemma sint_max_radius: "sint (max_radius w h) = min (sint w) (sint h) sdiv 2"
proof -
  have "- 32768 \<le> min (sint w) (sint h)" "min (sint w) (sint h) \<le> 32767"
    using sint16_lower [of w] sint16_lower [of h] sint16_upper [of w] by simp_all
  then have "- 32768 \<le> min (sint w) (sint h) sdiv 2" "min (sint w) (sint h) sdiv 2 \<le> 32767"
    by (auto simp add: signed_divide_int_def sgn_if)
  then have "sint (i16 (min (sint w) (sint h) sdiv 2)) = min (sint w) (sint h) sdiv 2"
    by (rule sint_i16)
  moreover have "(if sint w < sint h then sint w else sint h) = min (sint w) (sint h)"
    by (simp add: min_def)
  ultimately show ?thesis by (simp only: max_radius_def)
qed

text \<open>
  C7. For every origin, width \<open>w\<close>, height \<open>h\<close>, colour and every radius \<open>r\<close> greater
  than \<open>min w h / 2\<close> (the quotient of C, rounded towards zero), \<open>drawRoundRect\<close> with
  the radius \<open>r\<close> makes the same sequence of pixel writes as \<open>drawRoundRect\<close> with the
  radius \<open>min w h / 2\<close>; the same holds for \<open>fillRoundRect\<close>.
\<close>

theorem drawRoundRect_clamp:
  assumes "sint r > min (sint w) (sint h) sdiv 2"
  shows "sint (max_radius w h) = min (sint w) (sint h) sdiv 2
   \<and> drawRoundRect x y w h r c = drawRoundRect x y w h (max_radius w h) c
   \<and> fillRoundRect x y w h r c = fillRoundRect x y w h (max_radius w h) c"
proof -
  from assms have "sint r > sint (max_radius w h)"
    by (simp add: sint_max_radius)
  then show ?thesis
    by (simp add: sint_max_radius drawRoundRect_def fillRoundRect_def)
qed

theorem drawRoundRect_clamp_witness:
  "sint (9 :: int16) > min (sint (6 :: int16)) (sint (8 :: int16)) sdiv 2
   \<and> max_radius 6 8 = 3
   \<and> drawRoundRect 0 0 6 8 9 1 = drawRoundRect 0 0 6 8 3 1
   \<and> fillRoundRect 0 0 6 8 9 1 = fillRoundRect 0 0 6 8 3 1"
proof -
  have h: "sint (9 :: int16) > min (sint (6 :: int16)) (sint (8 :: int16)) sdiv 2"
    by (simp add: signed_divide_int_def)
  have m: "max_radius 6 8 = 3"
    by (simp add: max_radius_def signed_divide_int_def i16_def)
  from drawRoundRect_clamp [OF h, of 0 0 1] h m show ?thesis
    by simp
qed

section \<open>Properties of the colour interpolation\<close>

lemma masks: "(0x1F :: int) = mask 5" "(0x3F :: int) = mask 6"
  by (simp_all add: mask_eq_exp_minus_1)

lemma repack_channels:
  "word_of_int (push_bit 11 (drop_bit 11 (uint c) AND 0x1F)
      OR push_bit 5 (drop_bit 5 (uint c) AND 0x3F) OR (uint c AND 0x1F)) = (c :: 16 word)"
proof (rule bit_word_eqI)
  fix n :: nat
  assume "n < LENGTH(16)"
  then have n: "n < 16" by simp
  consider "n < 5" | "5 \<le> n" "n < 11" | "11 \<le> n" by linarith
  then show "bit (word_of_int (push_bit 11 (drop_bit 11 (uint c) AND 0x1F)
      OR push_bit 5 (drop_bit 5 (uint c) AND 0x3F) OR (uint c AND 0x1F)) :: 16 word) n = bit c n"
    using n
    by cases
      (simp_all add: masks bit_simps flip: take_bit_eq_mask, auto simp add: bit_uint_iff)
qed

lemma c_trunc_0: "c_trunc 0 = 0"
  by (simp add: c_trunc_def)

lemma c_trunc_of_int: "c_trunc (of_int k) = k"
  by (simp add: c_trunc_def)

text \<open>
  C8. For every colour \<open>c\<close> and every \<open>t\<close>, inside the interval from 0 to 1 or not,
  \<open>interpolateColor c c t\<close> is \<open>c\<close>.
\<close>

theorem interpolateColor_same: "interpolateColor c c t = c"
  unfolding interpolateColor_def Let_def
  by (simp only: diff_self of_int_0 mult_zero_left c_trunc_0 add_0_right repack_channels)

theorem interpolateColor_same_witness:
  "interpolateColor 0xF81F 0xF81F (7 / 2) = 0xF81F"
  using interpolateColor_same [of "0xF81F" "7 / 2"] by simp

text \<open>
  C9. For every two colours, \<open>interpolateColor\<close> at \<open>t = 0\<close> is the start colour and at
  \<open>t = 1\<close> the end colour. Each channel is cut towards zero, not rounded: half way
  from blue 0 to blue 31 the result is 15 (from 15.5), and half way from blue 31 to
  blue 0 it is 16 (31 plus -15.5 cut to -15).
\<close>

theorem interpolateColor_ends:
  "interpolateColor colorStart colorEnd 0 = colorStart
   \<and> interpolateColor colorStart colorEnd 1 = colorEnd
   \<and> interpolateColor 0 31 (1 / 2) = 15
   \<and> interpolateColor 31 0 (1 / 2) = 16"
proof (intro conjI)
  show "interpolateColor colorStart colorEnd 0 = colorStart"
    unfolding interpolateColor_def Let_def
    by (simp only: mult_zero_right c_trunc_0 add_0_right repack_channels)
  show "interpolateColor colorStart colorEnd 1 = colorEnd"
    unfolding interpolateColor_def Let_def
    by (simp only: mult_1_right c_trunc_of_int add_diff_cancel_left' diff_add_cancel
          add.commute [of _ "_ - _"] repack_channels)
  show "interpolateColor 0 31 (1 / 2) = 15"
    by (simp add: interpolateColor_def c_trunc_def)
  show "interpolateColor 31 0 (1 / 2) = 16"
    by (simp add: interpolateColor_def c_trunc_def)
qed

theorem interpolateColor_ends_witness:
  "interpolateColor 0x001F 0xF800 0 = 0x001F \<and> interpolateColor 0x001F 0xF800 1 = 0xF800"
  using interpolateColor_ends [of "0x001F" "0xF800"] by simp

end
